theory Spec2Isabelle
  imports Complex_Main "HOL-Library.Word" "HOL-Library.Log_Nat"
begin

section \<open>Images\<close>

text \<open>
  The program works on numpy arrays of dtype uint8.  An array of shape \<open>(h, w)\<close> is the
  list of its \<open>h\<close> rows, each a list of \<open>w\<close> pixels; an array of shape \<open>(h, w, 3)\<close> has a
  BGR triple at every position.  \<open>image is None\<close> is \<open>None\<close> of \<open>image option\<close>.
  Arrays with \<open>h = 0\<close> are all represented by the empty list of rows.
\<close>

type_synonym pixel = "8 word"
type_synonym gray = "pixel list list"
type_synonym bgr = "pixel \<times> pixel \<times> pixel"

datatype image = Gray gray | Color "bgr list list"

definition height :: "'a list list \<Rightarrow> nat" where
  "height rows = length rows"

definition width :: "'a list list \<Rightarrow> nat" where
  "width rows = (case rows of [] \<Rightarrow> 0 | r # _ \<Rightarrow> length r)"

text \<open>\<open>image.size\<close>: the product of the entries of \<open>image.shape\<close>.\<close>

fun size_of :: "image \<Rightarrow> nat" where
  "size_of (Gray g) = height g * width g"
| "size_of (Color c) = height c * width c * 3"

section \<open>The image-processing primitives of OpenCV\<close>

text \<open>
  \<open>cv2\<close> is an external library.  Its primitives are modelled after the OpenCV
  documentation.  Two of them compute with floating-point weights and are taken as
  parameters: the luminance of a BGR triple (\<open>COLOR_BGR2GRAY\<close>) and the value at a
  position of the Gaussian-blurred image that \<open>adaptiveThreshold\<close> compares with.
\<close>

record cv2 =
  luma :: "bgr \<Rightarrow> pixel"
  gaussian_mean :: "gray \<Rightarrow> nat \<Rightarrow> nat \<Rightarrow> nat \<Rightarrow> pixel"

text \<open>A pointwise transform that also sees the position of each pixel.\<close>

definition imap2 :: "(nat \<Rightarrow> nat \<Rightarrow> 'a \<Rightarrow> 'b) \<Rightarrow> 'a list list \<Rightarrow> 'b list list" where
  "imap2 f rows =
     map (\<lambda>(r, row). map (\<lambda>(c, p). f r c p) (enumerate 0 row)) (enumerate 0 rows)"

text \<open>\<open>cv2.cvtColor(image, cv2.COLOR_BGR2GRAY)\<close>\<close>

definition cvtColor_BGR2GRAY :: "cv2 \<Rightarrow> bgr list list \<Rightarrow> gray" where
  "cvtColor_BGR2GRAY cv c = map (map (luma cv)) c"

text \<open>Reading a pixel with the border replicated (\<open>BORDER_REPLICATE\<close>).\<close>

definition clamp_index :: "int \<Rightarrow> nat \<Rightarrow> nat" where
  "clamp_index i n = nat (max 0 (min i (int n - 1)))"

definition px_replicate :: "gray \<Rightarrow> int \<Rightarrow> int \<Rightarrow> pixel" where
  "px_replicate g r c =
     (let row = g ! clamp_index r (length g) in row ! clamp_index c (length row))"

text \<open>The offsets of a \<open>k \<times> k\<close> window anchored at its centre.\<close>

definition window :: "nat \<Rightarrow> (int \<times> int) list" where
  "window k = (let hk = int (k div 2) in
     concat (map (\<lambda>dr. map (\<lambda>dc. (dr, dc)) [- hk..hk]) [- hk..hk]))"

definition median :: "pixel list \<Rightarrow> pixel" where
  "median xs = sort xs ! (length xs div 2)"

text \<open>\<open>cv2.medianBlur(gray, k)\<close>: the median of the window, border replicated.\<close>

definition medianBlur :: "gray \<Rightarrow> nat \<Rightarrow> gray" where
  "medianBlur g k =
     imap2 (\<lambda>r c _. median (map (\<lambda>(dr, dc). px_replicate g (int r + dr) (int c + dc)) (window k))) g"

text \<open>
  \<open>cv2.threshold(src, thresh, maxval, cv2.THRESH_BINARY)\<close>: \<open>maxval\<close> where the pixel is
  above \<open>thresh\<close>, 0 elsewhere.  Only the image of the returned pair is used.
\<close>

definition threshold_BINARY :: "gray \<Rightarrow> int \<Rightarrow> pixel \<Rightarrow> gray" where
  "threshold_BINARY g thresh maxval = map (map (\<lambda>p. if thresh < uint p then maxval else 0)) g"

text \<open>
  \<open>cv2.adaptiveThreshold(src, maxval, ADAPTIVE_THRESH_GAUSSIAN_C, THRESH_BINARY, block, C)\<close>:
  \<open>maxval\<close> where the pixel is above the Gaussian-weighted mean of its block minus \<open>C\<close>.
\<close>

definition adaptiveThreshold_GAUSSIAN_BINARY :: "cv2 \<Rightarrow> gray \<Rightarrow> pixel \<Rightarrow> nat \<Rightarrow> int \<Rightarrow> gray" where
  "adaptiveThreshold_GAUSSIAN_BINARY cv g maxval block C =
     imap2 (\<lambda>r c p. if uint (gaussian_mean cv g block r c) - C < uint p then maxval else 0) g"

text \<open>
  Morphology with a \<open>k \<times> k\<close> rectangle: the positions of the window that fall outside the
  image do not take part (the default border value of \<open>erode\<close> and \<open>dilate\<close>).
\<close>

definition neighbours :: "gray \<Rightarrow> nat \<Rightarrow> nat \<Rightarrow> nat \<Rightarrow> pixel list" where
  "neighbours g k r c =
     concat (map (\<lambda>(dr, dc).
        let r' = int r + dr; c' = int c + dc in
        if 0 \<le> r' \<and> r' < int (length g) \<and> 0 \<le> c' \<and> c' < int (length (g ! nat r'))
        then [g ! nat r' ! nat c'] else []) (window k))"

definition dilate :: "gray \<Rightarrow> nat \<Rightarrow> gray" where
  "dilate g k = imap2 (\<lambda>r c p. fold max (neighbours g k r c) p) g"

definition erode :: "gray \<Rightarrow> nat \<Rightarrow> gray" where
  "erode g k = imap2 (\<lambda>r c p. fold min (neighbours g k r c) p) g"

text \<open>\<open>cv2.morphologyEx(src, MORPH_CLOSE, kernel, iterations=1)\<close> and \<open>MORPH_OPEN\<close>\<close>

definition morph_CLOSE :: "gray \<Rightarrow> nat \<Rightarrow> gray" where
  "morph_CLOSE g k = erode (dilate g k) k"

definition morph_OPEN :: "gray \<Rightarrow> nat \<Rightarrow> gray" where
  "morph_OPEN g k = dilate (erode g k) k"

section \<open>Preprocessing (\<open>ocr_utils.preprocess_image\<close>)\<close>

text \<open>
  The grayscale conversion of step 1 (\<open>len(image.shape) == 3\<close> holds of the colour
  images) and the denoising of step 2.
\<close>

fun to_gray :: "cv2 \<Rightarrow> image \<Rightarrow> gray" where
  "to_gray cv (Color c) = cvtColor_BGR2GRAY cv c"
| "to_gray cv (Gray g) = g"

definition denoised :: "cv2 \<Rightarrow> image \<Rightarrow> gray" where
  "denoised cv img = medianBlur (to_gray cv img) 5"

definition preprocess_image :: "cv2 \<Rightarrow> image option \<Rightarrow> string \<Rightarrow> int \<Rightarrow> image option" where
  "preprocess_image cv im mode threshold =
     (case im of
        None \<Rightarrow> im
      | Some img \<Rightarrow>
          if size_of img = 0 then im
          else
            let den = denoised cv img in
            if mode = ''Grayscale'' then Some (Gray den)
            else if mode = ''Threshold'' then Some (Gray (threshold_BINARY den threshold 255))
            else if mode = ''Adaptive Threshold'' then
              Some (Gray (adaptiveThreshold_GAUSSIAN_BINARY cv den 255 11 2))
            else if mode = ''Morphological'' then
              (let binary = threshold_BINARY den threshold 255;
                   morph = morph_CLOSE binary 3;
                   morph = morph_OPEN morph 3
               in Some (Gray morph))
            else Some (Gray den))"

section \<open>The recognition engine and its adapter\<close>

text \<open>
  \<open>pytesseract\<close> is an external engine.  It is a parameter of the model: given an image
  it either raises (\<open>Inl\<close> with the text of the exception) or returns its answer.
  \<open>Image.fromarray\<close> is part of that call.  What a function does besides returning a value
  (a call of the engine, a line printed to the console) is recorded in a trace that
  is returned with the value.
\<close>

datatype event = EngineCall image | Print string

text \<open>
  The table that \<open>image_to_data\<close> returns with \<open>Output.DICT\<close>: one list per column.
  The numeric entries are integers, on which \<open>int(...)\<close> is the identity.
\<close>

record tess_data =
  d_text :: "string list"
  d_left :: "int list"
  d_top :: "int list"
  d_width :: "int list"
  d_height :: "int list"
  d_conf :: "int list"

record engine =
  image_to_string :: "image \<Rightarrow> string + string"
  image_to_data :: "image \<Rightarrow> string + tess_data"

text \<open>\<open>str.strip()\<close> on the ASCII whitespace characters.\<close>

definition is_space :: "char \<Rightarrow> bool" where
  "is_space c = (c \<in> set [CHR 0x09, CHR 0x0A, CHR 0x0B, CHR 0x0C, CHR 0x0D,
                            CHR 0x1C, CHR 0x1D, CHR 0x1E, CHR 0x1F, CHR '' ''])"

definition strip :: "string \<Rightarrow> string" where
  "strip s = rev (dropWhile is_space (rev (dropWhile is_space s)))"

definition extract_text_with_boxes :: "engine \<Rightarrow> image option \<Rightarrow> string \<times> event list" where
  "extract_text_with_boxes eng im =
     (case im of
        None \<Rightarrow> ('''', [])
      | Some img \<Rightarrow>
          if size_of img = 0 then ('''', [])
          else
            (case image_to_string eng img of
               Inr txt \<Rightarrow> ((if txt \<noteq> [] then strip txt else ''''), [EngineCall img])
             | Inl e \<Rightarrow> (''Error: '' @ e, [EngineCall img, Print (''Error during OCR: '' @ e)])))"

text \<open>Indexing a list: \<open>IndexError\<close> out of range (the loop only uses indices from 0).\<close>

definition lookup :: "'a list \<Rightarrow> nat \<Rightarrow> 'a option" where
  "lookup xs i = (if i < length xs then Some (xs ! i) else None)"

type_synonym box = "int \<times> int \<times> int \<times> int \<times> int"

text \<open>
  The loop of \<open>get_text_boxes\<close> over \<open>range(len(data['text']))\<close>; \<open>None\<close> when an index
  is out of range in one of the columns, in the order in which the body reads them.
\<close>

fun boxes_loop :: "tess_data \<Rightarrow> nat list \<Rightarrow> box list \<Rightarrow> box list option" where
  "boxes_loop d [] boxes = Some boxes"
| "boxes_loop d (i # is) boxes =
     (case lookup (d_conf d) i of
        None \<Rightarrow> None
      | Some c \<Rightarrow>
          if 0 < c then
            (case lookup (d_left d) i of None \<Rightarrow> None | Some x \<Rightarrow>
             case lookup (d_top d) i of None \<Rightarrow> None | Some y \<Rightarrow>
             case lookup (d_width d) i of None \<Rightarrow> None | Some w \<Rightarrow>
             case lookup (d_height d) i of None \<Rightarrow> None | Some h \<Rightarrow>
               boxes_loop d is (boxes @ [(x, y, w, h, c)]))
          else boxes_loop d is boxes)"

definition get_text_boxes :: "engine \<Rightarrow> image option \<Rightarrow> box list \<times> event list" where
  "get_text_boxes eng im =
     (case im of
        None \<Rightarrow> ([], [])
      | Some img \<Rightarrow>
          if size_of img = 0 then ([], [])
          else
            (case image_to_data eng img of
               Inl e \<Rightarrow> ([], [EngineCall img, Print (''Error getting text boxes: '' @ e)])
             | Inr d \<Rightarrow>
                 (case boxes_loop d [0..<length (d_text d)] [] of
                    None \<Rightarrow> ([], [EngineCall img,
                                Print ''Error getting text boxes: list index out of range''])
                  | Some boxes \<Rightarrow> (boxes, [EngineCall img]))))"

section \<open>OCR of a region (\<open>ocr_utils.extract_text_from_roi\<close>)\<close>

datatype py_error = TypeError | ZeroDivisionError

text \<open>
  A slice \<open>xs[a:b]\<close>: a negative bound counts from the end, and both bounds are cut to
  the length of the list.
\<close>

definition slice_index :: "int \<Rightarrow> nat \<Rightarrow> nat" where
  "slice_index i n = (if i < 0 then nat (max 0 (i + int n)) else min (nat i) n)"

definition py_slice :: "'a list \<Rightarrow> int \<Rightarrow> int \<Rightarrow> 'a list" where
  "py_slice xs a b =
     (let s = slice_index a (length xs); e = slice_index b (length xs)
      in take (e - s) (drop s xs))"

definition slice2 :: "'a list list \<Rightarrow> int \<Rightarrow> int \<Rightarrow> int \<Rightarrow> int \<Rightarrow> 'a list list" where
  "slice2 rows y0 y1 x0 x1 = map (\<lambda>row. py_slice row x0 x1) (py_slice rows y0 y1)"

text \<open>\<open>image[y:y+h, x:x+w]\<close>\<close>

fun crop :: "image \<Rightarrow> int \<Rightarrow> int \<Rightarrow> int \<Rightarrow> int \<Rightarrow> image" where
  "crop (Gray g) x y w h = Gray (slice2 g y (y + h) x (x + w))"
| "crop (Color c) x y w h = Color (slice2 c y (y + h) x (x + w))"

text \<open>Subscripting \<open>None\<close> raises \<open>TypeError\<close>.\<close>

definition extract_text_from_roi ::
  "cv2 \<Rightarrow> engine \<Rightarrow> image option \<Rightarrow> int \<times> int \<times> int \<times> int \<Rightarrow> string \<Rightarrow> int
     \<Rightarrow> py_error + string \<times> event list" where
  "extract_text_from_roi cv eng im roi_coords preprocess_mode threshold =
     (case roi_coords of (x, y, w, h) \<Rightarrow>
        (case im of
           None \<Rightarrow> Inl TypeError
         | Some img \<Rightarrow>
             let roi_image = crop img x y w h in
             if size_of roi_image = 0 then Inr ('''', [])
             else
               let processed = preprocess_image cv (Some roi_image) preprocess_mode threshold
               in Inr (extract_text_with_boxes eng processed)))"

section \<open>Python floats\<close>

text \<open>
  A Python float is an IEEE 754 binary64 number; the finite ones are rationals.
  \<open>fl q\<close> is the binary64 number nearest to \<open>q\<close>, ties to the even significand of
  53 bits.  The exponent is not bounded: \<open>fl\<close> agrees with binary64 where the magnitude
  of \<open>q\<close> is 0 or in the normal range, from \<open>2 ^ -1022\<close> up to the largest finite float,
  which covers the quotients and products of the 32-bit coordinates of Qt and of the
  dimensions of an image in memory.
\<close>

definition pow2 :: "int \<Rightarrow> rat" where
  "pow2 k = (if 0 \<le> k then 2 ^ nat k else 1 / 2 ^ nat (- k))"

text \<open>The integer part of the binary logarithm of a positive rational.\<close>

definition ilog2 :: "rat \<Rightarrow> int" where
  "ilog2 q = (case quotient_of q of (n, d) \<Rightarrow>
     let k = bitlen n - bitlen d in if pow2 k \<le> q then k else k - 1)"

text \<open>Rounding to the nearest integer, ties to even.\<close>

definition rne :: "rat \<Rightarrow> int" where
  "rne x = (let f = \<lfloor>x\<rfloor>; d = x - of_int f in
     if d < 1 / 2 then f else if 1 / 2 < d then f + 1 else if even f then f else f + 1)"

definition fl :: "rat \<Rightarrow> rat" where
  "fl q = (if q = 0 then 0 else
     let u = pow2 (ilog2 \<bar>q\<bar> - 52) in of_int (rne (q / u)) * u)"

text \<open>\<open>a / b\<close> on integers: the correctly rounded quotient; a zero divisor raises.\<close>

definition py_truediv :: "int \<Rightarrow> int \<Rightarrow> py_error + rat" where
  "py_truediv a b = (if b = 0 then Inl ZeroDivisionError else Inr (fl (of_int a / of_int b)))"

text \<open>\<open>n * f\<close> with an integer \<open>n\<close>: \<open>n\<close> is converted to a float, then the floats are multiplied.\<close>

definition py_mul :: "int \<Rightarrow> rat \<Rightarrow> rat" where
  "py_mul n f = fl (fl (of_int n) * f)"

text \<open>\<open>int(f)\<close> truncates towards zero.\<close>

definition py_int :: "rat \<Rightarrow> int" where
  "py_int f = (if 0 \<le> f then \<lfloor>f\<rfloor> else \<lceil>f\<rceil>)"

section \<open>From display to image coordinates (\<open>ImageCanvas.get_roi_in_image_coords\<close>)\<close>

record qrect =
  rect_x :: int
  rect_y :: int
  rect_width :: int
  rect_height :: int

record qpixmap =
  pixmap_width :: int
  pixmap_height :: int

record canvas =
  canvas_image :: "image option"
  display_pixmap :: "qpixmap option"
  roi_rect :: "qrect option"

text \<open>\<open>image.shape[:2]\<close>\<close>

fun shape2 :: "image \<Rightarrow> int \<times> int" where
  "shape2 (Gray g) = (int (height g), int (width g))"
| "shape2 (Color c) = (int (height c), int (width c))"

text \<open>The four products of the part \<open>Convert rect coordinates\<close>, before clamping.\<close>

definition convert_rect :: "qrect \<Rightarrow> rat \<Rightarrow> rat \<Rightarrow> int \<times> int \<times> int \<times> int" where
  "convert_rect r scale_x scale_y =
     (py_int (py_mul (rect_x r) scale_x),
      py_int (py_mul (rect_y r) scale_y),
      py_int (py_mul (rect_width r) scale_x),
      py_int (py_mul (rect_height r) scale_y))"

text \<open>The part \<open>Clamp to image boundaries\<close>.\<close>

definition clamp_rect :: "int \<times> int \<times> int \<times> int \<Rightarrow> int \<Rightarrow> int \<Rightarrow> int \<times> int \<times> int \<times> int" where
  "clamp_rect xywh img_w img_h =
     (case xywh of (x, y, w, h) \<Rightarrow>
        let x = max 0 (min x (img_w - 1));
            y = max 0 (min y (img_h - 1));
            w = max 1 (min w (img_w - x));
            h = max 1 (min h (img_h - y))
        in (x, y, w, h))"

text \<open>The arithmetic of the method, on the rectangle and the four dimensions it reads.\<close>

definition roi_in_image_coords ::
  "qrect \<Rightarrow> int \<Rightarrow> int \<Rightarrow> int \<Rightarrow> int \<Rightarrow> py_error + int \<times> int \<times> int \<times> int" where
  "roi_in_image_coords r img_w img_h display_w display_h =
     (case py_truediv img_w display_w of
        Inl e \<Rightarrow> Inl e
      | Inr scale_x \<Rightarrow>
          (case py_truediv img_h display_h of
             Inl e \<Rightarrow> Inl e
           | Inr scale_y \<Rightarrow> Inr (clamp_rect (convert_rect r scale_x scale_y) img_w img_h)))"

definition get_roi_in_image_coords :: "canvas \<Rightarrow> py_error + (int \<times> int \<times> int \<times> int) option" where
  "get_roi_in_image_coords self =
     (case (roi_rect self, canvas_image self, display_pixmap self) of
        (Some r, Some img, Some pm) \<Rightarrow>
          (case shape2 img of (img_h, img_w) \<Rightarrow>
             map_sum id Some
               (roi_in_image_coords r img_w img_h (pixmap_width pm) (pixmap_height pm)))
      | _ \<Rightarrow> Inr None)"

section \<open>Candidates and stand-ins for running the model\<close>

text \<open>One candidate of the engine, and the table of a list of candidates.\<close>

record candidate =
  c_text :: string
  c_left :: int
  c_top :: int
  c_width :: int
  c_height :: int
  c_conf :: int

definition table_of :: "candidate list \<Rightarrow> tess_data" where
  "table_of cs = \<lparr>d_text = map c_text cs, d_left = map c_left cs, d_top = map c_top cs,
     d_width = map c_width cs, d_height = map c_height cs, d_conf = map c_conf cs\<rparr>"

text \<open>The tuple that \<open>get_text_boxes\<close> appends for a candidate.\<close>

definition box_of :: "candidate \<Rightarrow> box" where
  "box_of c = (c_left c, c_top c, c_width c, c_height c, c_conf c)"

text \<open>
  Concrete values for the parameters, on which the definitions are evaluated: a
  stand-in for the two numeric kernels of OpenCV, a small image, and four engines
  (one that finds nothing, one that raises, one that answers with four candidates of
  confidence -1, 0, 5 and 90, one whose table has columns of different lengths).
\<close>

definition sample_cv :: cv2 where
  "sample_cv = \<lparr>luma = (\<lambda>(b, g, r). g),
     gaussian_mean = (\<lambda>g block r c. px_replicate g (int r) (int c))\<rparr>"

definition sample_image :: image where
  "sample_image = Gray [[10, 200], [130, 127]]"

definition sample_candidates :: "candidate list" where
  "sample_candidates =
     [\<lparr>c_text = '''', c_left = 0, c_top = 0, c_width = 2, c_height = 2, c_conf = - 1\<rparr>,
      \<lparr>c_text = '' '', c_left = 0, c_top = 0, c_width = 1, c_height = 1, c_conf = 0\<rparr>,
      \<lparr>c_text = ''l'', c_left = 1, c_top = 0, c_width = 1, c_height = 2, c_conf = 5\<rparr>,
      \<lparr>c_text = ''Hi'', c_left = 0, c_top = 1, c_width = 2, c_height = 1, c_conf = 90\<rparr>]"

definition silent_engine :: engine where
  "silent_engine = \<lparr>image_to_string = (\<lambda>_. Inr ''''), image_to_data = (\<lambda>_. Inr (table_of []))\<rparr>"

definition failing_engine :: engine where
  "failing_engine = \<lparr>image_to_string = (\<lambda>_. Inl ''tesseract is not installed''),
     image_to_data = (\<lambda>_. Inl ''tesseract is not installed'')\<rparr>"

definition sample_engine :: engine where
  "sample_engine = \<lparr>image_to_string = (\<lambda>_. Inr '' Hi ''),
     image_to_data = (\<lambda>_. Inr (table_of sample_candidates))\<rparr>"

definition ragged_engine :: engine where
  "ragged_engine = \<lparr>image_to_string = (\<lambda>_. Inr ''''),
     image_to_data = (\<lambda>_. Inr ((table_of sample_candidates)\<lparr>d_conf := [7]\<rparr>))\<rparr>"

text \<open>
  The conversion as the specification words it, for comparison with \<open>convert_rect\<close>:
  each product rounded to the nearest integer (the built-in \<open>round\<close>, ties to even).
\<close>

definition spec_convert_rect :: "qrect \<Rightarrow> rat \<Rightarrow> rat \<Rightarrow> int \<times> int \<times> int \<times> int" where
  "spec_convert_rect r scale_x scale_y =
     (rne (py_mul (rect_x r) scale_x),
      rne (py_mul (rect_y r) scale_y),
      rne (py_mul (rect_width r) scale_x),
      rne (py_mul (rect_height r) scale_y))"

text \<open>
  What \<open>int(v * (src / disp))\<close> is in exact arithmetic, up to the error of the
  floating-point operations: the quotient \<open>\<bar>v\<bar> * src / disp\<close> cut to its integer
  part, with the sign of \<open>v\<close>, or the integer one nearer to zero.
\<close>

definition truncated_scaling :: "int \<Rightarrow> int \<Rightarrow> int \<Rightarrow> int \<Rightarrow> bool" where
  "truncated_scaling t v src disp =
     (let n = (\<bar>v\<bar> * src) div disp in
      if 0 \<le> v then 0 \<le> t \<and> n - 1 \<le> t \<and> t \<le> n
      else t \<le> 0 \<and> - n \<le> t \<and> t \<le> 1 - n)"

section \<open>Properties of the primitives\<close>

lemma map_length_imap2: "map length (imap2 f rows) = map length rows"
  by (rule nth_equalityI) (simp_all add: imap2_def nth_enumerate_eq)

lemma map_length_threshold: "map length (threshold_BINARY g t m) = map length g"
  by (simp add: threshold_BINARY_def)

lemma map_length_medianBlur: "map length (medianBlur g k) = map length g"
  by (simp add: medianBlur_def map_length_imap2)

lemma map_length_adaptive: "map length (adaptiveThreshold_GAUSSIAN_BINARY cv g m b C) = map length g"
  by (simp add: adaptiveThreshold_GAUSSIAN_BINARY_def map_length_imap2)

lemma map_length_dilate: "map length (dilate g k) = map length g"
  by (simp add: dilate_def map_length_imap2)

lemma map_length_erode: "map length (erode g k) = map length g"
  by (simp add: erode_def map_length_imap2)

lemma map_length_morph:
  "map length (morph_CLOSE g k) = map length g" "map length (morph_OPEN g k) = map length g"
  by (simp_all add: morph_CLOSE_def morph_OPEN_def map_length_dilate map_length_erode)

lemma map_length_denoised: "map length (denoised cv img) = map length (to_gray cv img)"
  by (simp add: denoised_def map_length_medianBlur)

lemma same_dimensions:
  assumes "map length a = map length b"
  shows "height a = height b" and "width a = width b"
proof -
  from assms have "length (map length a) = length (map length b)" by simp
  then show "height a = height b" by (simp add: height_def)
  from assms show "width a = width b"
    by (cases a; cases b) (simp_all add: width_def)
qed

lemma boxes_loop_table:
  "\<forall>i \<in> set is. i < length cs \<Longrightarrow>
   boxes_loop (table_of cs) is acc
     = Some (acc @ map (\<lambda>i. box_of (cs ! i)) (filter (\<lambda>i. 0 < c_conf (cs ! i)) is))"
  by (induction "is" arbitrary: acc) (simp_all add: lookup_def table_of_def box_of_def)

lemma filter_by_index:
  "map (\<lambda>i. f (cs ! i)) (filter (\<lambda>i. P (cs ! i)) [0..<length cs]) = map f (filter P cs)"
proof -
  have "map f (filter P cs) = map f (filter P (map ((!) cs) [0..<length cs]))"
    by (simp add: map_nth)
  also have "\<dots> = map (\<lambda>i. f (cs ! i)) (filter (\<lambda>i. P (cs ! i)) [0..<length cs])"
    by (simp add: filter_map o_def)
  finally show ?thesis by simp
qed

section \<open>Preprocessing: the claims\<close>

text \<open>
  Claim C10.  For an absent image, or one of zero area, \<open>preprocess_image\<close> returns its
  argument unchanged for every mode and threshold, \<open>extract_text_with_boxes\<close> returns
  the empty string and \<open>get_text_boxes\<close> the empty list, and the trace of both is
  empty: the engine is not called.
\<close>

theorem empty_image_is_noop:
  assumes "im = None \<or> (\<exists>img. im = Some img \<and> size_of img = 0)"
  shows "preprocess_image cv im mode threshold = im
       \<and> extract_text_with_boxes eng im = ('''', [])
       \<and> get_text_boxes eng im = ([], [])"
  using assms
  by (auto simp: preprocess_image_def extract_text_with_boxes_def get_text_boxes_def)

theorem empty_image_is_noop_witness:
  "preprocess_image sample_cv None ''Threshold'' 127 = None
   \<and> extract_text_with_boxes sample_engine None = ('''', [])
   \<and> get_text_boxes sample_engine None = ([], [])
   \<and> size_of (Color [[], []]) = 0
   \<and> preprocess_image sample_cv (Some (Color [[], []])) ''Morphological'' 127 = Some (Color [[], []])
   \<and> extract_text_with_boxes sample_engine (Some (Color [[], []])) = ('''', [])
   \<and> get_text_boxes sample_engine (Some (Color [[], []])) = ([], [])"
proof -
  have z: "size_of (Color [[], []]) = 0" by (simp add: width_def)
  show ?thesis
    using empty_image_is_noop [of None sample_cv "''Threshold''" 127 sample_engine]
      empty_image_is_noop [of "Some (Color [[], []])" sample_cv "''Morphological''" 127 sample_engine] z
    by simp
qed

text \<open>
  Claim C1, as stated: a mode outside the four names makes \<open>preprocess_image\<close> fail.
  It does not: on the sample image the mode \<open>Sepia\<close> returns a buffer, the same one
  as the mode \<open>Grayscale\<close>.
\<close>

theorem unknown_mode_counterexample:
  "preprocess_image sample_cv (Some sample_image) ''Sepia'' 127 = Some (Gray [[127, 130], [130, 127]])
   \<and> preprocess_image sample_cv (Some sample_image) ''Sepia'' 127
       = preprocess_image sample_cv (Some sample_image) ''Grayscale'' 127"
  by code_simp

text \<open>
  Claim C1, amended.  For a non-empty image and a mode that is none of the strings
  \<open>Grayscale\<close>, \<open>Threshold\<close>, \<open>Adaptive Threshold\<close> and \<open>Morphological\<close>,
  \<open>preprocess_image\<close> returns the denoised grayscale buffer, which is what the mode
  \<open>Grayscale\<close> returns; it signals nothing.
\<close>

theorem unknown_mode_falls_back:
  assumes "mode \<notin> {''Grayscale'', ''Threshold'', ''Adaptive Threshold'', ''Morphological''}"
    and "size_of img \<noteq> 0"
  shows "preprocess_image cv (Some img) mode threshold = Some (Gray (denoised cv img))
       \<and> preprocess_image cv (Some img) mode threshold
           = preprocess_image cv (Some img) ''Grayscale'' threshold"
  using assms by (simp add: preprocess_image_def)

theorem unknown_mode_falls_back_witness:
  "''AdaptiveThreshold'' \<notin> {''Grayscale'', ''Threshold'', ''Adaptive Threshold'', ''Morphological''}
   \<and> size_of sample_image \<noteq> 0
   \<and> preprocess_image sample_cv (Some sample_image) ''AdaptiveThreshold'' 127
       = Some (Gray (denoised sample_cv sample_image))
   \<and> preprocess_image sample_cv (Some sample_image) ''AdaptiveThreshold'' 127
       = preprocess_image sample_cv (Some sample_image) ''Grayscale'' 127"
proof -
  have m: "''AdaptiveThreshold'' \<notin> {''Grayscale'', ''Threshold'', ''Adaptive Threshold'', ''Morphological''}"
    by simp
  have s: "size_of sample_image \<noteq> 0"
    by (simp add: sample_image_def height_def width_def)
  show ?thesis
    using unknown_mode_falls_back [OF m s, of sample_cv 127] m s by blast
qed

text \<open>
  Claim C8.  For a non-empty image and a threshold \<open>t\<close> from 0 to 255, the mode
  \<open>Threshold\<close> returns a buffer of the shape of the denoised grayscale input in which
  the pixel at a position is 255 where the denoised pixel is above \<open>t\<close> and 0
  elsewhere; so every pixel is 0 or 255.
\<close>

theorem threshold_mode_binary:
  assumes "size_of img \<noteq> 0" and "0 \<le> t" and "t \<le> 255"
  shows "\<exists>out. preprocess_image cv (Some img) ''Threshold'' t = Some (Gray out)
     \<and> map length out = map length (denoised cv img)
     \<and> (\<forall>r < length out. \<forall>c < length (out ! r).
           out ! r ! c = (if t < uint (denoised cv img ! r ! c) then 255 else 0))
     \<and> (\<forall>row \<in> set out. \<forall>p \<in> set row. p = 0 \<or> p = 255)"
proof -
  let ?den = "denoised cv img"
  let ?out = "threshold_BINARY ?den t 255"
  have 1: "preprocess_image cv (Some img) ''Threshold'' t = Some (Gray ?out)"
    using assms(1) by (simp add: preprocess_image_def)
  have 2: "map length ?out = map length ?den" by (rule map_length_threshold)
  have 3: "\<forall>r < length ?out. \<forall>c < length (?out ! r).
      ?out ! r ! c = (if t < uint (?den ! r ! c) then 255 else 0)"
    by (simp add: threshold_BINARY_def)
  have 4: "\<forall>row \<in> set ?out. \<forall>p \<in> set row. p = 0 \<or> p = 255"
    by (auto simp: threshold_BINARY_def)
  from 1 2 3 4 show ?thesis by blast
qed

theorem threshold_mode_binary_witness:
  "size_of sample_image \<noteq> 0 \<and> (0::int) \<le> 127 \<and> (127::int) \<le> 255
   \<and> denoised sample_cv sample_image = [[127, 130], [130, 127]]
   \<and> preprocess_image sample_cv (Some sample_image) ''Threshold'' 127 = Some (Gray [[0, 255], [255, 0]])"
proof -
  have s: "size_of sample_image \<noteq> 0"
    by (simp add: sample_image_def height_def width_def)
  have d: "denoised sample_cv sample_image = [[127, 130], [130, 127]]" by code_simp
  have p: "preprocess_image sample_cv (Some sample_image) ''Threshold'' 127 = Some (Gray [[0, 255], [255, 0]])"
    by code_simp
  from threshold_mode_binary [OF s, of 127 sample_cv] s d p show ?thesis by simp
qed

text \<open>
  Claim C9.  For a non-empty image, every threshold and each of the four modes, the
  buffer that \<open>preprocess_image\<close> returns has the height and the width of the
  grayscale conversion of the input.
\<close>

theorem preprocess_keeps_dimensions:
  assumes "size_of img \<noteq> 0"
    and "mode \<in> {''Grayscale'', ''Threshold'', ''Adaptive Threshold'', ''Morphological''}"
  shows "\<exists>out. preprocess_image cv (Some img) mode threshold = Some (Gray out)
     \<and> height out = height (to_gray cv img) \<and> width out = width (to_gray cv img)"
proof -
  have "\<exists>out. preprocess_image cv (Some img) mode threshold = Some (Gray out)
     \<and> map length out = map length (to_gray cv img)"
    using assms
    by (auto simp: preprocess_image_def Let_def map_length_threshold map_length_adaptive
        map_length_morph map_length_denoised)
  then show ?thesis by (blast dest: same_dimensions)
qed

theorem preprocess_keeps_dimensions_witness:
  "size_of sample_image \<noteq> 0
   \<and> ''Morphological'' \<in> {''Grayscale'', ''Threshold'', ''Adaptive Threshold'', ''Morphological''}
   \<and> (\<exists>out. preprocess_image sample_cv (Some sample_image) ''Morphological'' 127 = Some (Gray out)
        \<and> height out = 2 \<and> width out = 2)"
proof -
  have s: "size_of sample_image \<noteq> 0"
    by (simp add: sample_image_def height_def width_def)
  have m: "''Morphological'' \<in> {''Grayscale'', ''Threshold'', ''Adaptive Threshold'', ''Morphological''}"
    by simp
  have g: "height (to_gray sample_cv sample_image) = 2" "width (to_gray sample_cv sample_image) = 2"
    by (simp_all add: sample_image_def height_def width_def)
  from preprocess_keeps_dimensions [OF s m, of sample_cv 127] s m g show ?thesis by simp
qed

section \<open>The recognition adapter: the claims\<close>

text \<open>
  Claim C6.  When the engine answers a non-empty image with the table of a list of
  candidates, \<open>get_text_boxes\<close> returns the boxes of exactly the candidates whose
  confidence is above 0, in the order of the list, after one call of the engine.
  For candidates of confidence -1, 0, 5 and 90 these are the two boxes of
  confidence 5 and 90.
\<close>

theorem detections_are_positive_confidence_candidates:
  assumes "size_of img \<noteq> 0" and "image_to_data eng img = Inr (table_of cs)"
  shows "get_text_boxes eng (Some img)
           = (map box_of (filter (\<lambda>c. 0 < c_conf c) cs), [EngineCall img])"
proof -
  have n: "length (d_text (table_of cs)) = length cs"
    by (simp add: table_of_def)
  have "boxes_loop (table_of cs) [0..<length cs] []
          = Some (map (\<lambda>i. box_of (cs ! i)) (filter (\<lambda>i. 0 < c_conf (cs ! i)) [0..<length cs]))"
    using boxes_loop_table [of "[0..<length cs]" cs "[]"] by simp
  also have "map (\<lambda>i. box_of (cs ! i)) (filter (\<lambda>i. 0 < c_conf (cs ! i)) [0..<length cs])
          = map box_of (filter (\<lambda>c. 0 < c_conf c) cs)"
    by (rule filter_by_index)
  finally have "boxes_loop (table_of cs) [0..<length (d_text (table_of cs))] []
          = Some (map box_of (filter (\<lambda>c. 0 < c_conf c) cs))"
    by (simp only: n)
  with assms show ?thesis by (simp add: get_text_boxes_def)
qed

theorem detections_are_positive_confidence_candidates_witness:
  "size_of sample_image \<noteq> 0
   \<and> image_to_data sample_engine sample_image = Inr (table_of sample_candidates)
   \<and> map c_conf sample_candidates = [- 1, 0, 5, 90]
   \<and> get_text_boxes sample_engine (Some sample_image)
        = ([(1, 0, 1, 2, 5), (0, 1, 2, 1, 90)], [EngineCall sample_image])"
proof -
  have s: "size_of sample_image \<noteq> 0"
    by (simp add: sample_image_def height_def width_def)
  have e: "image_to_data sample_engine sample_image = Inr (table_of sample_candidates)"
    by (simp add: sample_engine_def)
  have c: "map c_conf sample_candidates = [- 1, 0, 5, 90]"
    by (simp add: sample_candidates_def)
  have f: "map box_of (filter (\<lambda>c. 0 < c_conf c) sample_candidates) = [(1, 0, 1, 2, 5), (0, 1, 2, 1, 90)]"
    by (simp add: sample_candidates_def box_of_def)
  from detections_are_positive_confidence_candidates [OF s e] s e c f show ?thesis by simp
qed

text \<open>
  Claim C7, as stated: a failure of the engine comes back as an error value with a
  typed signal.  It does not: when the engine raises, \<open>get_text_boxes\<close> returns the
  empty list, the value it returns when the engine finds nothing, and the failure
  only shows as a line on the console.
\<close>

theorem engine_failure_counterexample:
  "get_text_boxes failing_engine (Some sample_image)
     = ([], [EngineCall sample_image, Print ''Error getting text boxes: tesseract is not installed''])
   \<and> get_text_boxes silent_engine (Some sample_image) = ([], [EngineCall sample_image])
   \<and> fst (get_text_boxes failing_engine (Some sample_image))
        = fst (get_text_boxes silent_engine (Some sample_image))"
  by (simp add: get_text_boxes_def failing_engine_def silent_engine_def sample_image_def
      height_def width_def table_of_def)

text \<open>
  Claim C7, amended.  When the engine raises on a non-empty image, both operations
  catch the exception after the one call of the engine and print one line:
  \<open>extract_text_with_boxes\<close> returns the string \<open>Error: \<close> followed by the text of
  the exception, and \<open>get_text_boxes\<close> returns the empty list, which is also what it
  returns when a column of the table is too short.
\<close>

theorem engine_failure_results:
  assumes "size_of img \<noteq> 0"
  shows "(image_to_string eng img = Inl e \<longrightarrow>
            extract_text_with_boxes eng (Some img)
              = (''Error: '' @ e, [EngineCall img, Print (''Error during OCR: '' @ e)]))
       \<and> (image_to_data eng img = Inl e \<longrightarrow>
            get_text_boxes eng (Some img)
              = ([], [EngineCall img, Print (''Error getting text boxes: '' @ e)]))
       \<and> (image_to_data eng img = Inr d \<and> boxes_loop d [0..<length (d_text d)] [] = None \<longrightarrow>
            get_text_boxes eng (Some img)
              = ([], [EngineCall img, Print ''Error getting text boxes: list index out of range'']))"
  using assms by (simp add: extract_text_with_boxes_def get_text_boxes_def)

theorem engine_failure_results_witness:
  "size_of sample_image \<noteq> 0
   \<and> image_to_string failing_engine sample_image = Inl ''tesseract is not installed''
   \<and> image_to_data failing_engine sample_image = Inl ''tesseract is not installed''
   \<and> extract_text_with_boxes failing_engine (Some sample_image)
        = (''Error: tesseract is not installed'',
           [EngineCall sample_image, Print ''Error during OCR: tesseract is not installed''])
   \<and> get_text_boxes failing_engine (Some sample_image)
        = ([], [EngineCall sample_image, Print ''Error getting text boxes: tesseract is not installed''])
   \<and> image_to_data ragged_engine sample_image = Inr ((table_of sample_candidates)\<lparr>d_conf := [7]\<rparr>)
   \<and> boxes_loop ((table_of sample_candidates)\<lparr>d_conf := [7]\<rparr>)
        [0..<length (d_text ((table_of sample_candidates)\<lparr>d_conf := [7]\<rparr>))] [] = None
   \<and> get_text_boxes ragged_engine (Some sample_image)
        = ([], [EngineCall sample_image, Print ''Error getting text boxes: list index out of range''])"
proof -
  have s: "size_of sample_image \<noteq> 0"
    by (simp add: sample_image_def height_def width_def)
  have a: "image_to_string failing_engine sample_image = Inl ''tesseract is not installed''"
    and b: "image_to_data failing_engine sample_image = Inl ''tesseract is not installed''"
    by (simp_all add: failing_engine_def)
  have c: "image_to_data ragged_engine sample_image = Inr ((table_of sample_candidates)\<lparr>d_conf := [7]\<rparr>)"
    by (simp add: ragged_engine_def)
  have d: "boxes_loop ((table_of sample_candidates)\<lparr>d_conf := [7]\<rparr>)
        [0..<length (d_text ((table_of sample_candidates)\<lparr>d_conf := [7]\<rparr>))] [] = None"
    by code_simp
  from engine_failure_results [OF s, of failing_engine "''tesseract is not installed''"]
    engine_failure_results [OF s, of ragged_engine _ "(table_of sample_candidates)\<lparr>d_conf := [7]\<rparr>"]
    s a b c d
  show ?thesis by simp
qed

section \<open>OCR of a region: the claim\<close>

lemma py_slice_empty: "py_slice xs a a = []"
  by (simp add: py_slice_def)

lemma width_slice2_empty: "width (slice2 rows y0 y1 x x) = 0"
  by (cases "py_slice rows y0 y1") (simp_all add: slice2_def width_def py_slice_empty)

lemma crop_zero_width: "size_of (crop img x y 0 h) = 0"
  by (cases img) (simp_all add: width_slice2_empty)

text \<open>
  Claim C2, as stated: a region whose crop has zero area makes the OCR of the region
  fail with an error that differs from finding no text.  It does not: for a region
  of width 0 the function returns the empty string, which is also the string it
  returns for a region of positive area in which the engine finds nothing.
\<close>

theorem zero_area_roi_counterexample:
  "size_of (crop sample_image 0 0 0 2) = 0
   \<and> extract_text_from_roi sample_cv silent_engine (Some sample_image) (0, 0, 0, 2) ''Grayscale'' 127
       = Inr ('''', [])
   \<and> extract_text_from_roi sample_cv silent_engine (Some sample_image) (0, 0, 1, 2) ''Grayscale'' 127
       = Inr ('''', [EngineCall (Gray [[10], [130]])])"
  by code_simp

text \<open>
  Claim C2, amended.  For every image, mode and threshold, when the crop of the
  image to the region has zero area, \<open>extract_text_from_roi\<close> returns the empty
  string and its trace is empty: the engine is not called and nothing is raised.
\<close>

theorem zero_area_roi_returns_empty_text:
  assumes "size_of (crop img x y w h) = 0"
  shows "extract_text_from_roi cv eng (Some img) (x, y, w, h) mode threshold = Inr ('''', [])"
  using assms by (simp add: extract_text_from_roi_def)

theorem zero_area_roi_returns_empty_text_witness:
  "size_of (crop sample_image 1 0 0 2) = 0
   \<and> extract_text_from_roi sample_cv sample_engine (Some sample_image) (1, 0, 0, 2) ''Threshold'' 127
       = Inr ('''', [])"
proof -
  have z: "size_of (crop sample_image 1 0 0 2) = 0" by (rule crop_zero_width)
  from zero_area_roi_returns_empty_text [OF z] z show ?thesis by simp
qed

section \<open>From display to image coordinates: the claims\<close>

lemma clamp_rect_inside:
  assumes "0 < img_w" and "0 < img_h"
    and c: "clamp_rect xywh img_w img_h = (x, y, w, h)"
  shows "0 \<le> x \<and> x \<le> img_w - 1 \<and> 0 \<le> y \<and> y \<le> img_h - 1
       \<and> 1 \<le> w \<and> w \<le> img_w - x \<and> 1 \<le> h \<and> h \<le> img_h - y"
proof -
  obtain x0 y0 w0 h0 where xywh: "xywh = (x0, y0, w0, h0)" by (cases xywh) auto
  from c have x: "x = max 0 (min x0 (img_w - 1))" and y: "y = max 0 (min y0 (img_h - 1))"
    by (simp_all add: clamp_rect_def xywh Let_def)
  from c have w: "w = max 1 (min w0 (img_w - x))" and h: "h = max 1 (min h0 (img_h - y))"
    by (simp_all add: clamp_rect_def xywh Let_def x y)
  have x1: "0 \<le> x" and x2: "x \<le> img_w - 1" using assms(1) by (simp_all add: x)
  have y1: "0 \<le> y" and y2: "y \<le> img_h - 1" using assms(2) by (simp_all add: y)
  have w1: "1 \<le> w" and w2: "w \<le> img_w - x" using x2 by (simp_all add: w)
  have h1: "1 \<le> h" and h2: "h \<le> img_h - y" using y2 by (simp_all add: h)
  from x1 x2 y1 y2 w1 w2 h1 h2 show ?thesis by blast
qed

lemma roi_in_image_coords_eq:
  assumes "display_w \<noteq> 0" and "display_h \<noteq> 0"
  shows "roi_in_image_coords r img_w img_h display_w display_h
           = Inr (clamp_rect (convert_rect r (fl (of_int img_w / of_int display_w))
                                (fl (of_int img_h / of_int display_h))) img_w img_h)"
  using assms by (simp add: roi_in_image_coords_def py_truediv_def)

lemma get_roi_in_image_coords_eq:
  assumes "roi_rect self = Some r" and "canvas_image self = Some img"
    and "display_pixmap self = Some pm"
  shows "get_roi_in_image_coords self
           = map_sum id Some (roi_in_image_coords r (snd (shape2 img)) (fst (shape2 img))
               (pixmap_width pm) (pixmap_height pm))"
  using assms by (simp add: get_roi_in_image_coords_def split_def)

lemma get_roi_in_image_coords_None:
  assumes "roi_rect self = None \<or> canvas_image self = None \<or> display_pixmap self = None"
  shows "get_roi_in_image_coords self = Inr None"
  using assms by (auto simp: get_roi_in_image_coords_def split: option.splits)

text \<open>
  Claim C3.  For every rectangle of the display, also one with negative coordinates
  or one that reaches beyond the display, and for positive dimensions of the display
  and of the image, the method returns a rectangle with \<open>x\<close> from 0 to
  \<open>img_w - 1\<close>, \<open>y\<close> from 0 to \<open>img_h - 1\<close>, \<open>w\<close> from 1 to \<open>img_w - x\<close> and \<open>h\<close> from
  1 to \<open>img_h - y\<close>: it lies inside the image and its area is positive.
\<close>

theorem roi_inside_image:
  assumes "0 < img_w" and "0 < img_h" and "0 < display_w" and "0 < display_h"
  shows "\<exists>x y w h. roi_in_image_coords r img_w img_h display_w display_h = Inr (x, y, w, h)
       \<and> 0 \<le> x \<and> x \<le> img_w - 1 \<and> 0 \<le> y \<and> y \<le> img_h - 1
       \<and> 1 \<le> w \<and> w \<le> img_w - x \<and> 1 \<le> h \<and> h \<le> img_h - y"
proof -
  define s where "s = convert_rect r (fl (of_int img_w / of_int display_w))
                        (fl (of_int img_h / of_int display_h))"
  obtain x y w h where c: "clamp_rect s img_w img_h = (x, y, w, h)"
    by (cases "clamp_rect s img_w img_h") auto
  have "roi_in_image_coords r img_w img_h display_w display_h = Inr (x, y, w, h)"
    using assms(3,4) c by (simp add: roi_in_image_coords_eq s_def)
  with clamp_rect_inside [OF assms(1,2) c] show ?thesis by blast
qed

theorem roi_inside_image_witness:
  "(0::int) < 30 \<and> (0::int) < 20 \<and> (0::int) < 49 \<and> (0::int) < 40
   \<and> roi_in_image_coords \<lparr>rect_x = - 5, rect_y = 38, rect_width = 100, rect_height = 7\<rparr> 30 20 49 40
       = Inr (0, 19, 30, 1)"
proof -
  have e: "roi_in_image_coords \<lparr>rect_x = - 5, rect_y = 38, rect_width = 100, rect_height = 7\<rparr> 30 20 49 40
       = Inr (0, 19, 30, 1)" by code_simp
  from roi_inside_image [of 30 20 49 40 "\<lparr>rect_x = - 5, rect_y = 38, rect_width = 100, rect_height = 7\<rparr>"] e
  show ?thesis by simp
qed

section \<open>Floating-point error of the scaling\<close>

lemma pow2_pos: "0 < pow2 k" by (simp add: pow2_def)

lemma pow2_powi: "pow2 k = 2 powi k"
  by (simp add: pow2_def power_int_def inverse_eq_divide power_one_over)

lemma pow2_add: "pow2 (a + b) = pow2 a * pow2 b"
  by (simp add: pow2_powi power_int_add)

lemma rne_err: "\<bar>of_int (rne x) - x\<bar> \<le> 1 / 2"
proof -
  have a: "of_int \<lfloor>x\<rfloor> \<le> x" and b: "x < of_int \<lfloor>x\<rfloor> + 1" by linarith+
  consider "x - of_int \<lfloor>x\<rfloor> < 1 / 2" | "1 / 2 < x - of_int \<lfloor>x\<rfloor>" | "x - of_int \<lfloor>x\<rfloor> = 1 / 2"
    by linarith
  then show ?thesis
  proof cases
    case 1
    then have "rne x = \<lfloor>x\<rfloor>" by (simp add: rne_def Let_def)
    with a 1 show ?thesis by simp
  next
    case 2
    then have "rne x = \<lfloor>x\<rfloor> + 1" by (simp add: rne_def Let_def)
    with b 2 show ?thesis by simp
  next
    case 3
    then have "rne x = \<lfloor>x\<rfloor> \<or> rne x = \<lfloor>x\<rfloor> + 1" by (simp add: rne_def Let_def)
    with 3 show ?thesis by auto
  qed
qed

lemma rne_nonneg: "0 \<le> x \<Longrightarrow> 0 \<le> rne x"
  by (simp add: rne_def Let_def)

lemma ilog2_le: assumes "0 < q" shows "pow2 (ilog2 q) \<le> q"
proof -
  obtain n d where nd: "quotient_of q = (n, d)" by (cases "quotient_of q")
  then have d: "0 < d" and q: "q = of_int n / of_int d"
    by (auto dest: quotient_of_denom_pos quotient_of_div)
  with assms have n: "0 < n" by (simp add: zero_less_divide_iff)
  define k where "k = bitlen n - bitlen d"
  show ?thesis
  proof (cases "pow2 k \<le> q")
    case True
    then show ?thesis by (simp add: ilog2_def nd k_def)
  next
    case False
    then have e: "ilog2 q = k - 1" by (simp add: ilog2_def nd k_def)
    have bn: "2 powi (bitlen n - 1) \<le> (of_int n :: rat)"
    proof -
      from n have "1 \<le> bitlen n" using bitlen_eq_zero_iff[of n] bitlen_nonneg[of n] by linarith
      then have "(2::rat) powi (bitlen n - 1) = of_int (2 ^ nat (bitlen n - 1))"
        by (simp add: power_int_def)
      also have "\<dots> \<le> of_int n" using bitlen_bounds[OF n] by (simp only: of_int_le_iff)
      finally show ?thesis .
    qed
    have bd: "(of_int d :: rat) \<le> 2 powi (bitlen d)"
    proof -
      have "(of_int d :: rat) \<le> of_int (2 ^ nat (bitlen d))"
        using bitlen_bounds[OF d] unfolding of_int_le_iff by simp
      also have "\<dots> = 2 powi (bitlen d)"
        using bitlen_nonneg[of d] by (simp add: power_int_def)
      finally show ?thesis .
    qed
    have "pow2 (k - 1) * of_int d \<le> 2 powi (bitlen n - 1 - bitlen d) * 2 powi (bitlen d)"
      unfolding pow2_powi k_def using bd
      by (simp add: mult_left_mono algebra_simps)
    also have "\<dots> = 2 powi (bitlen n - 1)"
      by (simp flip: power_int_add)
    also note bn
    finally have "pow2 (k - 1) \<le> q" using d by (simp add: q pos_le_divide_eq)
    with e show ?thesis by simp
  qed
qed

lemma ilog2_less: assumes "0 < q" shows "q < pow2 (ilog2 q + 1)"
proof -
  obtain n d where nd: "quotient_of q = (n, d)" by (cases "quotient_of q")
  then have d: "0 < d" and q: "q = of_int n / of_int d"
    by (auto dest: quotient_of_denom_pos quotient_of_div)
  with assms have n: "0 < n" by (simp add: zero_less_divide_iff)
  define k where "k = bitlen n - bitlen d"
  show ?thesis
  proof (cases "pow2 k \<le> q")
    case False
    then show ?thesis by (simp add: ilog2_def nd k_def)
  next
    case True
    then have e: "ilog2 q = k" by (simp add: ilog2_def nd k_def)
    have bn: "(of_int n :: rat) < 2 powi (bitlen n)"
    proof -
      have "(of_int n :: rat) < of_int (2 ^ nat (bitlen n))"
        using bitlen_bounds[OF n] unfolding of_int_less_iff by simp
      also have "\<dots> = 2 powi (bitlen n)"
        using bitlen_nonneg[of n] by (simp add: power_int_def)
      finally show ?thesis .
    qed
    have bd: "2 powi (bitlen d - 1) \<le> (of_int d :: rat)"
    proof -
      from d have "1 \<le> bitlen d" using bitlen_eq_zero_iff[of d] bitlen_nonneg[of d] by linarith
      then have "(2::rat) powi (bitlen d - 1) = of_int (2 ^ nat (bitlen d - 1))"
        by (simp add: power_int_def)
      also have "\<dots> \<le> of_int d" using bitlen_bounds[OF d] by (simp only: of_int_le_iff)
      finally show ?thesis .
    qed
    have "of_int n < (2::rat) powi (bitlen n - (bitlen d - 1)) * 2 powi (bitlen d - 1)"
      using bn by (simp flip: power_int_add)
    also have "\<dots> \<le> 2 powi (k + 1) * of_int d"
      using bd by (simp add: k_def algebra_simps mult_left_mono)
    finally have "q < pow2 (k + 1)" using d by (simp add: q pos_divide_less_eq pow2_powi)
    with e show ?thesis by simp
  qed
qed

lemma fl_err: "\<bar>fl q - q\<bar> \<le> \<bar>q\<bar> / 2 ^ 53"
proof (cases "q = 0")
  case True
  then show ?thesis by (simp add: fl_def)
next
  case False
  define u where "u = pow2 (ilog2 \<bar>q\<bar> - 52)"
  have u: "0 < u" by (simp add: u_def pow2_pos)
  have "u = pow2 (ilog2 \<bar>q\<bar>) * pow2 (- 52)"
    unfolding u_def by (simp flip: pow2_add)
  also have "\<dots> \<le> \<bar>q\<bar> * pow2 (- 52)"
    using False by (intro mult_right_mono ilog2_le) (simp_all add: pow2_def)
  finally have ub: "u \<le> \<bar>q\<bar> / 2 ^ 52" by (simp add: pow2_def)
  have "fl q - q = (of_int (rne (q / u)) - q / u) * u"
    using False u by (simp add: fl_def u_def[symmetric] Let_def algebra_simps)
  then have "\<bar>fl q - q\<bar> = \<bar>of_int (rne (q / u)) - q / u\<bar> * u"
    using u by (simp add: abs_mult)
  also have "\<dots> \<le> 1 / 2 * u"
    using u by (intro mult_right_mono rne_err) simp
  also have "\<dots> \<le> 1 / 2 * (\<bar>q\<bar> / 2 ^ 52)"
    using ub by simp
  finally show ?thesis by simp
qed

lemma fl_nonneg: "0 \<le> q \<Longrightarrow> 0 \<le> fl q"
  by (simp add: fl_def Let_def pow2_pos rne_nonneg less_imp_le)

lemma rne_nonpos: "x \<le> 0 \<Longrightarrow> rne x \<le> 0"
proof -
  assume x: "x \<le> 0"
  then have f: "\<lfloor>x\<rfloor> \<le> 0" by (simp add: floor_le_iff)
  show ?thesis
  proof (cases "\<lfloor>x\<rfloor> = 0")
    case True
    then have "0 \<le> x" by (metis of_int_0 of_int_floor_le)
    with x have "x = 0" by simp
    then show ?thesis by (simp add: rne_def)
  next
    case False
    with f have "\<lfloor>x\<rfloor> + 1 \<le> 0" by linarith
    with f show ?thesis by (simp add: rne_def Let_def)
  qed
qed

lemma fl_nonpos: "q \<le> 0 \<Longrightarrow> fl q \<le> 0"
  by (simp add: fl_def Let_def pow2_pos rne_nonpos less_imp_le
      mult_nonpos_nonneg divide_nonpos_pos)

lemma three_roundings:
  fixes v s0 a s r e :: rat
  assumes e: "0 \<le> e" "e \<le> 1 / 4" and s0: "0 \<le> s0"
    and a: "\<bar>a - v\<bar> \<le> \<bar>v\<bar> * e" and s: "\<bar>s - s0\<bar> \<le> s0 * e"
    and r: "\<bar>r - a * s\<bar> \<le> \<bar>a * s\<bar> * e"
  shows "\<bar>r - v * s0\<bar> \<le> \<bar>v\<bar> * s0 * (4 * e)"
proof -
  define V where "V = \<bar>v\<bar>"
  have V: "0 \<le> V" by (simp add: V_def)
  have A: "\<bar>a\<bar> \<le> V * (1 + e)"
  proof -
    have "\<bar>a\<bar> \<le> \<bar>v\<bar> + \<bar>a - v\<bar>" by linarith
    with a show ?thesis by (simp add: V_def algebra_simps)
  qed
  have S: "\<bar>s\<bar> \<le> s0 * (1 + e)"
  proof -
    have "\<bar>s\<bar> \<le> \<bar>s0\<bar> + \<bar>s - s0\<bar>" by linarith
    with s s0 show ?thesis by (simp add: algebra_simps)
  qed
  have AS: "\<bar>a * s\<bar> \<le> V * (1 + e) * (s0 * (1 + e))"
    unfolding abs_mult by (rule mult_mono [OF A S]) (use V e in simp_all)
  have D1: "\<bar>a * s - v * s0\<bar> \<le> V * (1 + e) * (s0 * e) + s0 * (V * e)"
  proof -
    have "a * s - v * s0 = a * (s - s0) + s0 * (a - v)" by (simp add: algebra_simps)
    then have "\<bar>a * s - v * s0\<bar> \<le> \<bar>a\<bar> * \<bar>s - s0\<bar> + s0 * \<bar>a - v\<bar>"
      using s0 by (simp add: abs_mult [symmetric]) (metis abs_mult abs_of_nonneg abs_triangle_ineq)
    also have "\<bar>a\<bar> * \<bar>s - s0\<bar> \<le> V * (1 + e) * (s0 * e)"
      by (rule mult_mono [OF A s]) (use V e in simp_all)
    also have "s0 * \<bar>a - v\<bar> \<le> s0 * (V * e)"
      using a s0 by (simp add: V_def mult_left_mono)
    finally show ?thesis by simp
  qed
  have D2: "\<bar>r - a * s\<bar> \<le> V * (1 + e) * (s0 * (1 + e)) * e"
    using r mult_right_mono [OF AS e(1)] by linarith
  have "\<bar>r - v * s0\<bar> \<le> \<bar>r - a * s\<bar> + \<bar>a * s - v * s0\<bar>" by linarith
  also have "\<dots> \<le> V * (1 + e) * (s0 * (1 + e)) * e + (V * (1 + e) * (s0 * e) + s0 * (V * e))"
    using D1 D2 by linarith
  also have "\<dots> = V * s0 * (3 * e + 3 * (e * e) + e * e * e)"
    by (simp add: algebra_simps)
  also have "\<dots> \<le> V * s0 * (4 * e)"
  proof -
    have e2: "e * e \<le> e * (1 / 4)" using e by (intro mult_left_mono) simp_all
    have "e * e * e \<le> e * e * (1 / 4)" using e by (intro mult_left_mono) simp_all
    with e2 have "3 * e + 3 * (e * e) + e * e * e \<le> 4 * e" using e by simp
    then show ?thesis using V s0 by (intro mult_left_mono) simp_all
  qed
  finally show ?thesis by (simp add: V_def)
qed

lemma py_mul_err:
  assumes "0 < src" and "0 < disp"
  shows "\<bar>py_mul v (fl (of_int src / of_int disp)) - of_int v * (of_int src / of_int disp)\<bar>
           \<le> \<bar>of_int v\<bar> * (of_int src / of_int disp) / 2 ^ 51"
proof -
  let ?s0 = "of_int src / of_int disp :: rat"
  have s0: "0 \<le> ?s0" using assms by simp
  have "\<bar>py_mul v (fl ?s0) - of_int v * ?s0\<bar> \<le> \<bar>of_int v\<bar> * ?s0 * (4 * (1 / 2 ^ 53))"
    unfolding py_mul_def
  proof (rule three_roundings)
    show "\<bar>fl (of_int v) - of_int v\<bar> \<le> \<bar>of_int v :: rat\<bar> * (1 / 2 ^ 53)"
      using fl_err [of "of_int v"] by simp
    show "\<bar>fl ?s0 - ?s0\<bar> \<le> ?s0 * (1 / 2 ^ 53)"
      using fl_err [of ?s0] s0 by simp
    show "\<bar>fl (fl (of_int v) * fl ?s0) - fl (of_int v) * fl ?s0\<bar>
            \<le> \<bar>fl (of_int v) * fl ?s0\<bar> * (1 / 2 ^ 53)"
      using fl_err [of "fl (of_int v) * fl ?s0"] by simp
  qed (use s0 in simp_all)
  then show ?thesis by simp
qed

lemma py_mul_sign:
  assumes "0 \<le> s"
  shows "0 \<le> v \<Longrightarrow> 0 \<le> py_mul v s" and "v \<le> 0 \<Longrightarrow> py_mul v s \<le> 0"
  using assms
  by (simp_all add: py_mul_def fl_nonneg fl_nonpos mult_nonpos_nonneg)

lemma floor_near_quotient:
  fixes x :: rat
  assumes d: "0 < d" and x: "\<bar>x - of_int p / of_int d\<bar> < 1 / of_int d"
  shows "p div d - 1 \<le> \<lfloor>x\<rfloor>" and "\<lfloor>x\<rfloor> \<le> p div d"
proof -
  define n where "n = p div d"
  define m where "m = p mod d"
  have p: "p = n * d + m" by (simp add: n_def m_def)
  have m: "0 \<le> m" "m + 1 \<le> d" using d by (simp_all add: m_def Suc_le_eq pos_mod_bound zless_imp_add1_zle)
  have D: "0 < (of_int d :: rat)" using d by simp
  have pd: "of_int p / of_int d = of_int n + of_int m / (of_int d :: rat)"
    using D by (simp add: p field_simps)
  have m0: "0 \<le> of_int m / (of_int d :: rat)" using m D by simp
  have m1: "of_int m / (of_int d :: rat) + 1 / of_int d \<le> 1"
  proof -
    have "of_int m / (of_int d :: rat) + 1 / of_int d = of_int (m + 1) / of_int d"
      by (simp add: add_divide_distrib)
    also have "\<dots> \<le> 1" using m D by (simp add: pos_divide_le_eq del: of_int_add) 
    finally show ?thesis .
  qed
  have d1: "1 / (of_int d :: rat) \<le> 1" using d by simp
  from x have lo: "of_int p / of_int d - 1 / of_int d < x" and hi: "x < of_int p / of_int d + 1 / of_int d"
    by (simp_all add: abs_less_iff) 
  have "x < of_int (n + 1)" using hi pd m1 by simp
  then have "\<lfloor>x\<rfloor> < n + 1" by (simp only: floor_less_iff)
  then show "\<lfloor>x\<rfloor> \<le> p div d" by (simp add: n_def)
  have "of_int (n - 1) \<le> x" using lo pd m0 d1 by simp
  then have "n - 1 \<le> \<lfloor>x\<rfloor>" by (simp only: le_floor_iff)
  then show "p div d - 1 \<le> \<lfloor>x\<rfloor>" by (simp add: n_def)
qed

lemma py_mul_near:
  assumes "0 < src" and "0 < disp" and b: "\<bar>v\<bar> * src < 2 ^ 51"
  shows "\<bar>py_mul v (fl (of_int src / of_int disp)) - of_int (v * src) / of_int disp\<bar>
           < 1 / of_int disp"
proof -
  define E :: rat where "E = of_int (\<bar>v\<bar> * src)"
  have D: "0 < (of_int disp :: rat)" using assms by simp
  have "E < of_int (2 ^ 51)" unfolding E_def using b by (simp only: of_int_less_iff)
  then have "E / 2 ^ 51 < 1" by simp
  then have lt: "E / 2 ^ 51 / of_int disp < 1 / of_int disp"
    using D by (rule divide_strict_right_mono)
  have 1: "\<bar>of_int v\<bar> * (of_int src / of_int disp) / 2 ^ 51 = E / 2 ^ 51 / of_int disp"
    by (simp add: E_def)
  have 2: "of_int v * (of_int src / of_int disp) = (of_int (v * src) :: rat) / of_int disp"
    by simp
  from py_mul_err [OF assms(1,2), of v]
  have "\<bar>py_mul v (fl (of_int src / of_int disp)) - of_int (v * src) / of_int disp\<bar>
          \<le> E / 2 ^ 51 / of_int disp"
    unfolding 1 2 .
  with lt show ?thesis by linarith
qed

lemma scaled_coordinate_truncated:
  assumes "0 < src" and "0 < disp" and b: "\<bar>v\<bar> * src < 2 ^ 51"
  shows "truncated_scaling (py_int (py_mul v (fl (of_int src / of_int disp)))) v src disp"
proof -
  let ?s = "fl (of_int src / of_int disp)"
  let ?r = "py_mul v ?s"
  have s: "0 \<le> ?s" using assms by (intro fl_nonneg) simp
  note near = py_mul_near [OF assms]
  show ?thesis
  proof (cases "0 \<le> v")
    case True
    then have r: "0 \<le> ?r" by (rule py_mul_sign(1) [OF s])
    then have t: "py_int ?r = \<lfloor>?r\<rfloor>" by (simp add: py_int_def)
    from r have "0 \<le> \<lfloor>?r\<rfloor>" by simp
    moreover from floor_near_quotient [OF assms(2) near] True
    have "(\<bar>v\<bar> * src) div disp - 1 \<le> \<lfloor>?r\<rfloor>" "\<lfloor>?r\<rfloor> \<le> (\<bar>v\<bar> * src) div disp"
      by simp_all
    ultimately show ?thesis using True by (simp add: truncated_scaling_def t Let_def)
  next
    case False
    then have v: "v \<le> 0" "\<bar>v\<bar> = - v" by simp_all
    then have r: "?r \<le> 0" using py_mul_sign(2) [OF s] by simp
    have t: "py_int ?r = \<lceil>?r\<rceil>"
    proof (cases "?r = 0")
      case True then show ?thesis by (simp add: py_int_def)
    next
      case False with r show ?thesis by (simp add: py_int_def)
    qed
    have c: "\<lceil>?r\<rceil> = - \<lfloor>- ?r\<rfloor>" by (simp add: ceiling_def)
    have "\<bar>- ?r - of_int (\<bar>v\<bar> * src) / of_int disp\<bar> < 1 / of_int disp"
    proof -
      have "- ?r - of_int (\<bar>v\<bar> * src) / of_int disp = - (?r - of_int (v * src) / of_int disp)"
        by (simp add: v(2))
      then show ?thesis using near by (simp only: abs_minus_cancel)
    qed
    from floor_near_quotient [OF assms(2) this]
    have "(\<bar>v\<bar> * src) div disp - 1 \<le> \<lfloor>- ?r\<rfloor>" "\<lfloor>- ?r\<rfloor> \<le> (\<bar>v\<bar> * src) div disp"
      by simp_all
    moreover from r have "\<lceil>?r\<rceil> \<le> 0" by (simp add: ceiling_le_iff)
    ultimately show ?thesis using False by (simp add: truncated_scaling_def t c Let_def)
  qed
qed

lemma py_mul_zero: "py_mul 0 s = 0"
  by (simp add: py_mul_def fl_def)

lemma full_extent:
  assumes "0 < src" and "src < 2 ^ 51" and "0 < disp"
  shows "src - 1 \<le> py_int (py_mul disp (fl (of_int src / of_int disp)))"
    and "py_int (py_mul disp (fl (of_int src / of_int disp))) \<le> src"
proof -
  let ?s = "fl (of_int src / of_int disp)"
  let ?r = "py_mul disp ?s"
  have D: "0 < (of_int disp :: rat)" using assms by simp
  have s: "0 \<le> ?s" using assms by (intro fl_nonneg) simp
  have r: "0 \<le> ?r" using assms(3) py_mul_sign(1) [OF s, of disp] by simp
  then have t: "py_int ?r = \<lfloor>?r\<rfloor>" by (simp add: py_int_def)
  have 1: "of_int disp * (of_int src / of_int disp) = (of_int src :: rat)"
    using D by simp
  have 2: "\<bar>of_int disp\<bar> * (of_int src / of_int disp) / 2 ^ 51 = (of_int src :: rat) / 2 ^ 51"
    using D by simp
  from py_mul_err [OF assms(1,3), of disp]
  have le: "\<bar>?r - of_int src\<bar> \<le> (of_int src :: rat) / 2 ^ 51"
    unfolding 1 2 .
  have "(of_int src :: rat) < of_int (2 ^ 51)" using assms(2) by (simp only: of_int_less_iff)
  then have "(of_int src :: rat) / 2 ^ 51 < 1" by simp
  with le have "\<bar>?r - of_int src / of_int 1\<bar> < 1 / of_int (1::int)" by simp
  from floor_near_quotient [OF _ this]
  show "src - 1 \<le> py_int ?r" and "py_int ?r \<le> src" by (simp_all add: t)
qed

section \<open>The scaling: the claims\<close>

text \<open>
  Claim C4, as stated: before clamping, each scaled coordinate is rounded to the
  nearest integer.  It is not: \<open>int(...)\<close> cuts the fraction off.  For an image of
  width 7 shown 4 pixels wide the scale is 1.75, a coordinate 1 becomes 1 and not
  2, and so does the returned rectangle.
\<close>

theorem rounding_counterexample:
  "py_truediv 7 4 = Inr (7 / 4)
   \<and> convert_rect \<lparr>rect_x = 1, rect_y = 1, rect_width = 1, rect_height = 1\<rparr> (7 / 4) (7 / 4) = (1, 1, 1, 1)
   \<and> spec_convert_rect \<lparr>rect_x = 1, rect_y = 1, rect_width = 1, rect_height = 1\<rparr> (7 / 4) (7 / 4) = (2, 2, 2, 2)
   \<and> roi_in_image_coords \<lparr>rect_x = 1, rect_y = 1, rect_width = 1, rect_height = 1\<rparr> 7 7 4 4 = Inr (1, 1, 1, 1)"
  by code_simp

text \<open>
  Claim C4, amended.  For positive dimensions of the display and of the image and a
  rectangle whose coordinates times the dimensions of the image are below \<open>2 ^ 51\<close>,
  the method computes, before clamping, \<open>int(v * s)\<close> for each coordinate \<open>v\<close> with
  the float \<open>s\<close> of source over display: the scaled coordinate cut towards zero (or,
  by the error of the float operations, the integer one nearer to zero), never
  rounded away from zero.
\<close>

theorem convert_rect_truncates:
  assumes "0 < img_w" and "0 < img_h" and "0 < display_w" and "0 < display_h"
    and "\<bar>rect_x r\<bar> * img_w < 2 ^ 51" and "\<bar>rect_width r\<bar> * img_w < 2 ^ 51"
    and "\<bar>rect_y r\<bar> * img_h < 2 ^ 51" and "\<bar>rect_height r\<bar> * img_h < 2 ^ 51"
  shows "case convert_rect r (fl (of_int img_w / of_int display_w)) (fl (of_int img_h / of_int display_h)) of
           (x, y, w, h) \<Rightarrow>
             truncated_scaling x (rect_x r) img_w display_w
           \<and> truncated_scaling y (rect_y r) img_h display_h
           \<and> truncated_scaling w (rect_width r) img_w display_w
           \<and> truncated_scaling h (rect_height r) img_h display_h"
  using assms by (simp add: convert_rect_def scaled_coordinate_truncated)

theorem convert_rect_truncates_witness:
  "convert_rect \<lparr>rect_x = - 5, rect_y = 1, rect_width = 3, rect_height = 20\<rparr> (fl (30 / 49)) (fl (7 / 4))
     = (- 3, 1, 1, 35)
   \<and> truncated_scaling (- 3) (- 5) 30 49 \<and> truncated_scaling 1 1 7 4
   \<and> truncated_scaling 1 3 30 49 \<and> truncated_scaling 35 20 7 4"
proof -
  let ?r = "\<lparr>rect_x = - 5, rect_y = 1, rect_width = 3, rect_height = 20\<rparr>"
  have e: "convert_rect ?r (fl (30 / 49)) (fl (7 / 4)) = (- 3, 1, 1, 35)" by code_simp
  from convert_rect_truncates [of 30 7 49 4 ?r] e show ?thesis by simp
qed

text \<open>
  Claim C5.  For positive dimensions of the display and of the image (the image below
  \<open>2 ^ 51\<close> pixels in each direction, which every image in memory is), the rectangle
  of the whole display is mapped to a rectangle at \<open>(0, 0)\<close> whose width and height
  are those of the image or one pixel less.
\<close>

theorem full_display_maps_to_full_image:
  assumes "0 < img_w" and "img_w < 2 ^ 51" and "0 < img_h" and "img_h < 2 ^ 51"
    and "0 < display_w" and "0 < display_h"
  shows "\<exists>w h. roi_in_image_coords
                  \<lparr>rect_x = 0, rect_y = 0, rect_width = display_w, rect_height = display_h\<rparr>
                  img_w img_h display_w display_h = Inr (0, 0, w, h)
             \<and> img_w - 1 \<le> w \<and> w \<le> img_w \<and> img_h - 1 \<le> h \<and> h \<le> img_h"
proof -
  let ?w0 = "py_int (py_mul display_w (fl (of_int img_w / of_int display_w)))"
  let ?h0 = "py_int (py_mul display_h (fl (of_int img_h / of_int display_h)))"
  let ?w = "max 1 (min ?w0 img_w)"
  let ?h = "max 1 (min ?h0 img_h)"
  have z: "py_int 0 = 0" by (simp add: py_int_def)
  have "roi_in_image_coords
          \<lparr>rect_x = 0, rect_y = 0, rect_width = display_w, rect_height = display_h\<rparr>
          img_w img_h display_w display_h = Inr (0, 0, ?w, ?h)"
    using assms
    by (simp add: roi_in_image_coords_eq convert_rect_def clamp_rect_def py_mul_zero z)
  moreover have "img_w - 1 \<le> ?w" "?w \<le> img_w"
    using full_extent [OF assms(1,2,5)] assms(1) by simp_all
  moreover have "img_h - 1 \<le> ?h" "?h \<le> img_h"
    using full_extent [OF assms(3,4,6)] assms(3) by simp_all
  ultimately show ?thesis by blast
qed

theorem full_display_maps_to_full_image_witness:
  "roi_in_image_coords \<lparr>rect_x = 0, rect_y = 0, rect_width = 49, rect_height = 480\<rparr> 1 1080 49 480
     = Inr (0, 0, 1, 1080)
   \<and> roi_in_image_coords \<lparr>rect_x = 0, rect_y = 0, rect_width = 47, rect_height = 49\<rparr> 3 2 47 49
     = Inr (0, 0, 2, 1)"
proof -
  have a: "roi_in_image_coords \<lparr>rect_x = 0, rect_y = 0, rect_width = 49, rect_height = 480\<rparr> 1 1080 49 480
     = Inr (0, 0, 1, 1080)" by code_simp
  have b: "roi_in_image_coords \<lparr>rect_x = 0, rect_y = 0, rect_width = 47, rect_height = 49\<rparr> 3 2 47 49
     = Inr (0, 0, 2, 1)" by code_simp
  from full_display_maps_to_full_image [of 1 1080 49 480]
    full_display_maps_to_full_image [of 3 2 47 49] a b show ?thesis by simp
qed

end
